theory Spec2Isabelle
  imports Main "HOL-Library.Sublist"
begin

section \<open>Strings and exceptions\<close>

text \<open>
  Python strings are modelled as \<open>string\<close>; a \<open>char\<close> stands for the code point
  of the same number (the range below 256). Every exception the connector raises or lets
  through is a value of \<open>error\<close>. The first five constructors are all Python
  \<^verbatim>\<open>ValueError\<close>s, told apart by what raised them.
\<close>

datatype error =
    NotEnoughValues          \<comment> \<open>\<^verbatim>\<open>ValueError\<close>: unpacking a list shorter than the two targets\<close>
  | TooManyValues            \<comment> \<open>\<^verbatim>\<open>ValueError\<close>: unpacking a list longer than the two targets\<close>
  | ProtocolNotSupported string  \<comment> \<open>\<^verbatim>\<open>ValueError("Protocol ... not supported yet ...")\<close>\<close>
  | InvalidPath string       \<comment> \<open>\<^verbatim>\<open>ValueError("Invalid path ...")\<close>\<close>
  | NoObjectsFound string    \<comment> \<open>\<^verbatim>\<open>ValueError("No objects found in ...")\<close>\<close>
  | TypeError                \<comment> \<open>an ordering comparison between \<^verbatim>\<open>None\<close> and an \<^verbatim>\<open>int\<close>\<close>
  | ReadError string         \<comment> \<open>\<^verbatim>\<open>tarfile.ReadError\<close>\<close>
  | Raised string            \<comment> \<open>any other exception coming out of a collaborator\<close>

text \<open>
  \<^verbatim>\<open>s.split(sep)\<close> for a non-empty separator: the pieces between the non-overlapping
  occurrences of \<open>sep\<close>, found from the left. The only separators used are \<^verbatim>\<open>"://"\<close>
  and \<^verbatim>\<open>"/"\<close>.
\<close>

fun str_split :: "string \<Rightarrow> string \<Rightarrow> string list" where
  "str_split sep [] = [[]]"
| "str_split sep (c # cs) =
     (if prefix sep (c # cs) then [] # str_split sep (drop (length sep - 1) cs)
      else (case str_split sep cs of [] \<Rightarrow> [[c]] | h # t \<Rightarrow> (c # h) # t))"

text \<open>
  \<^verbatim>\<open>s.replace(old, new)\<close> for a non-empty \<open>old\<close>: every non-overlapping occurrence,
  found from the left, is replaced.
\<close>

fun str_replace :: "string \<Rightarrow> string \<Rightarrow> string \<Rightarrow> string" where
  "str_replace old new [] = []"
| "str_replace old new (c # cs) =
     (if prefix old (c # cs) then new @ str_replace old new (drop (length old - 1) cs)
      else c # str_replace old new cs)"

text \<open>\<^verbatim>\<open>sep.join(xs)\<close>.\<close>

fun str_join :: "string \<Rightarrow> string list \<Rightarrow> string" where
  "str_join sep [] = []"
| "str_join sep [x] = x"
| "str_join sep (x # y # ys) = x @ sep @ str_join sep (y # ys)"

text \<open>
  The characters matched by \<^verbatim>\<open>\s\<close> in a Python 3 \<^verbatim>\<open>str\<close> pattern, below code
  point 256: tab, line feed, vertical tab, form feed, carriage return, the four
  separators \<^verbatim>\<open>\x1c\<close> to \<^verbatim>\<open>\x1f\<close>, space, \<^verbatim>\<open>\x85\<close> and \<^verbatim>\<open>\xa0\<close>.
\<close>

definition is_space :: "char \<Rightarrow> bool" where
  "is_space c \<longleftrightarrow> of_char c \<in> set [9, 10, 11, 12, 13, 28, 29, 30, 31, 32, 133, 160 :: nat]"

text \<open>The class \<^verbatim>\<open>[^/\s]\<close>.\<close>

definition name_char :: "char \<Rightarrow> bool" where
  "name_char c \<longleftrightarrow> c \<noteq> CHR ''/'' \<and> \<not> is_space c"

section \<open>The connector configuration\<close>

definition SUPPORTED_REMOTE_FSSPEC_PROTOCOLS :: "string list" where
  "SUPPORTED_REMOTE_FSSPEC_PROTOCOLS =
     [''s3'', ''s3a'', ''abfs'', ''az'', ''gs'', ''gcs'', ''box'', ''dropbox'']"

record SimpleFsspecConfig =
  path :: string
  recursive :: bool
  access_kwargs :: "(string \<times> string) list"
  protocol :: string
  path_without_protocol :: string
  dir_path :: string
  file_path :: string
  uncompress :: bool

text \<open>
  \<^verbatim>\<open>re.match\<close> anchors a pattern at the start of the string only. The three patterns
  of \<^verbatim>\<open>__post_init__\<close> all begin with the protocol followed by \<^verbatim>\<open>://\<close>; the
  protocol is a member of the supported list when they are built, so it has no regular
  expression metacharacter and is matched literally. \<open>after_protocol\<close> is what is left of
  the path after that literal prefix, if the path starts with it.
\<close>

fun strip_prefix :: "string \<Rightarrow> string \<Rightarrow> string option" where
  "strip_prefix [] s = Some s"
| "strip_prefix (p # ps) [] = None"
| "strip_prefix (p # ps) (c # cs) = (if p = c then strip_prefix ps cs else None)"

definition after_protocol :: "string \<Rightarrow> string \<Rightarrow> string option" where
  "after_protocol proto p = strip_prefix (proto @ ''://'') p"

text \<open>
  \<^verbatim>\<open>re.match(rf"{protocol}://([\s])/", path)\<close>: one whitespace character and a slash
  right after the prefix; there is no anchor at the end, so anything may follow. The
  result is group 1.
\<close>

definition match_rootless :: "string \<Rightarrow> string \<Rightarrow> string option" where
  "match_rootless proto p =
     (case after_protocol proto p of
        Some (c # d # _) \<Rightarrow> if is_space c \<and> d = CHR ''/'' then Some [c] else None
      | _ \<Rightarrow> None)"

text \<open>
  \<^verbatim>\<open>re.match(rf"{protocol}://([^/\s]+?)(/*)$", path)\<close>. Group 1 is a non-empty run of
  \<^verbatim>\<open>[^/\s]\<close>; what follows it must be slashes up to the end, so the run is the longest
  one. Without \<^verbatim>\<open>re.MULTILINE\<close>, \<^verbatim>\<open>$\<close> matches at the end of the string and also just
  before a line feed that is the last character. The result is group 1.
\<close>

definition match_root_only :: "string \<Rightarrow> string \<Rightarrow> string option" where
  "match_root_only proto p =
     (case after_protocol proto p of
        None \<Rightarrow> None
      | Some r \<Rightarrow>
          (let g1 = takeWhile name_char r;
               rest = dropWhile (\<lambda>c. c = CHR ''/'') (dropWhile name_char r)
           in if g1 \<noteq> [] \<and> (rest = [] \<or> rest = [CHR 0x0A]) then Some g1 else None))"

text \<open>
  \<^verbatim>\<open>re.match(rf"{protocol}://([^/\s]+?)/([^\s]*)", path)\<close>. Group 1 is a non-empty run
  of \<^verbatim>\<open>[^/\s]\<close> followed by a slash (hence the longest run); group 2 is the greedy run
  of non-whitespace characters after that slash. There is no anchor at the end. The
  result is the pair of groups.
\<close>

definition match_dir_file :: "string \<Rightarrow> string \<Rightarrow> (string \<times> string) option" where
  "match_dir_file proto p =
     (case after_protocol proto p of
        None \<Rightarrow> None
      | Some r \<Rightarrow>
          (let g1 = takeWhile name_char r
           in case dropWhile name_char r of
                [] \<Rightarrow> None
              | d # rest \<Rightarrow>
                  if g1 \<noteq> [] \<and> d = CHR ''/''
                  then Some (g1, takeWhile (\<lambda>c. \<not> is_space c) rest) else None))"

text \<open>
  \<^verbatim>\<open>SimpleFsspecConfig.__post_init__\<close>, as a function of the fields the constructor
  takes. The tuple assignment from \<^verbatim>\<open>path.split("://")\<close> needs exactly two pieces.
\<close>

definition post_init ::
  "string \<Rightarrow> bool \<Rightarrow> (string \<times> string) list \<Rightarrow> bool \<Rightarrow> error + SimpleFsspecConfig" where
  "post_init p rec kw unc =
     (case str_split ''://'' p of
        [] \<Rightarrow> Inl NotEnoughValues
      | [_] \<Rightarrow> Inl NotEnoughValues
      | [proto, pwp] \<Rightarrow>
          (let mk = (\<lambda>d f. \<lparr>path = p, recursive = rec, access_kwargs = kw, protocol = proto,
                          path_without_protocol = pwp, dir_path = d, file_path = f,
                          uncompress = unc\<rparr>)
           in if proto \<notin> set SUPPORTED_REMOTE_FSSPEC_PROTOCOLS
              then Inl (ProtocolNotSupported proto)
              else if match_rootless proto p \<noteq> None \<and> proto = ''dropbox''
              then Inr (mk '' '' '''')
              else (case match_root_only proto p of
                      Some g1 \<Rightarrow> Inr (mk g1 '''')
                    | None \<Rightarrow>
                        (case match_dir_file proto p of
                           None \<Rightarrow> Inl (InvalidPath p)
                         | Some (g1, g2) \<Rightarrow> Inr (mk g1 g2))))
      | _ \<Rightarrow> Inl TooManyValues)"

section \<open>Paths\<close>

text \<open>
  A \<^verbatim>\<open>pathlib.Path\<close> on a POSIX system: the root (empty, \<^verbatim>\<open>/\<close> or \<^verbatim>\<open>//\<close>)
  and the components. Parsing a string drops empty components and \<^verbatim>\<open>.\<close>; exactly two
  leading slashes are kept as the root \<^verbatim>\<open>//\<close>, one or more than two give \<^verbatim>\<open>/\<close>.
\<close>

datatype Path = Path (path_root: string) (path_parts: "string list")

definition splitroot :: "string \<Rightarrow> string" where
  "splitroot s =
     (if take 1 s \<noteq> ''/'' then ''''
      else if take 2 s = ''//'' \<and> take 3 s \<noteq> ''///'' then ''//'' else ''/'')"

definition to_Path :: "string \<Rightarrow> Path" where
  "to_Path s = Path (splitroot s) (filter (\<lambda>x. x \<noteq> '''' \<and> x \<noteq> ''.'') (str_split ''/'' s))"

text \<open>\<^verbatim>\<open>p / s\<close>: a segment with a root replaces everything to its left.\<close>

definition truediv :: "Path \<Rightarrow> string \<Rightarrow> Path" where
  "truediv p s =
     (let q = to_Path s
      in if path_root q \<noteq> '''' then q else Path (path_root p) (path_parts p @ path_parts q))"

definition as_posix :: "Path \<Rightarrow> string" where
  "as_posix p =
     (if path_root p = '''' \<and> path_parts p = [] then ''.''
      else path_root p @ str_join ''/'' (path_parts p))"

definition parent :: "Path \<Rightarrow> Path" where
  "parent p = Path (path_root p) (butlast (path_parts p))"

text \<open>\<^verbatim>\<open>os.path.split\<close> and \<^verbatim>\<open>os.path.join\<close> (of two arguments) of \<^verbatim>\<open>posixpath\<close>.\<close>

definition os_path_split :: "string \<Rightarrow> string \<times> string" where
  "os_path_split p =
     (let tail = rev (takeWhile (\<lambda>c. c \<noteq> CHR ''/'') (rev p));
          head = rev (dropWhile (\<lambda>c. c \<noteq> CHR ''/'') (rev p))
      in (if head \<noteq> '''' \<and> (\<exists>c \<in> set head. c \<noteq> CHR ''/'')
          then rev (dropWhile (\<lambda>c. c = CHR ''/'') (rev head)) else head,
          tail))"

definition os_path_join :: "string \<Rightarrow> string \<Rightarrow> string" where
  "os_path_join a b =
     (if take 1 b = ''/'' then b
      else if a = '''' \<or> last a = CHR ''/'' then a @ b
      else a @ ''/'' @ b)"

section \<open>Documents, the local state and the collaborators\<close>

text \<open>
  Of \<^verbatim>\<open>StandardConnectorConfig\<close> (declared outside this module) the connector reads the
  download and the output directory.
\<close>

record StandardConnectorConfig =
  download_dir :: string
  output_dir :: string

text \<open>
  \<^verbatim>\<open>FsspecIngestDoc\<close>. The children are the documents a \<^verbatim>\<open>LocalConnector\<close> returns;
  their type is a parameter.
\<close>

record 'c FsspecIngestDoc =
  standard_config :: StandardConnectorConfig
  config :: SimpleFsspecConfig
  remote_file_path :: string
  is_compressed :: bool
  children :: "'c list"

datatype log_record = LogDebug string | LogInfo string | LogWarning string | LogError string

text \<open>
  What the methods change outside the document: the regular files and the directories of
  the local file system (by their path strings), the log, and the trace of the calls
  \<^verbatim>\<open>fs.get(rpath, lpath)\<close> made to the remote file system.
\<close>

record world =
  files :: "string set"
  dirs :: "string set"
  logs :: "log_record list"
  fetch_calls :: "(string \<times> string) list"

text \<open>
  A listing entry of the remote file system: the \<^verbatim>\<open>name\<close> of the object and what
  \<^verbatim>\<open>.get("size")\<close> returns for it, \<^verbatim>\<open>None\<close> when the key is missing.
\<close>

datatype pyval = PyNone | PyInt int

record entry =
  name :: string
  entry_size :: pyval  \<comment> \<open>the value under the key \<^verbatim>\<open>size\<close>\<close>

text \<open>
  The collaborators the module calls but does not define, as parameters:
  \<^item> \<open>fs_ls p\<close> is \<^verbatim>\<open>fs.ls(p, detail=True)\<close> and \<open>fs_find p\<close> the items of
    \<^verbatim>\<open>fs.find(p, detail=True)\<close>, each raising or returning its listing;
  \<^item> \<open>fs_get r l\<close> is \<^verbatim>\<open>fs.get(rpath=r, lpath=l)\<close>: the exception it raises, if any;
    a call that returns has written the file \<open>l\<close>;
  \<^item> \<open>is_zipfile\<close>, \<open>is_tarfile\<close> classify the downloaded file by its bytes;
  \<^item> \<open>zip_extractall z p\<close> opens the archive \<open>z\<close> and extracts it under \<open>p\<close>: the
    exception raised, or the files written; likewise \<open>tar_extractall\<close>;
  \<^item> \<open>local_get_ingest_docs p\<close> is \<^verbatim>\<open>get_ingest_docs()\<close> of a recursive
    \<^verbatim>\<open>LocalConnector\<close> on the directory \<open>p\<close>.
\<close>

record 'c env =
  fs_ls :: "string \<Rightarrow> error + entry list"
  fs_find :: "string \<Rightarrow> error + (string \<times> entry) list"
  fs_get :: "string \<Rightarrow> string \<Rightarrow> error option"
  is_zipfile :: "string \<Rightarrow> bool"
  is_tarfile :: "string \<Rightarrow> bool"
  zip_extractall :: "string \<Rightarrow> string \<Rightarrow> error + string list"
  tar_extractall :: "string \<Rightarrow> string \<Rightarrow> error + string list"
  local_get_ingest_docs :: "string \<Rightarrow> 'c list"

definition emit :: "log_record \<Rightarrow> world \<Rightarrow> world" where
  "emit r w = w\<lparr>logs := logs w @ [r]\<rparr>"

section \<open>The document\<close>

definition tmp_download_file :: "'c FsspecIngestDoc \<Rightarrow> Path" where
  "tmp_download_file d =
     truediv (to_Path (download_dir (standard_config d)))
       (str_replace (dir_path (config d) @ ''/'') '''' (remote_file_path d))"

definition filename :: "'c FsspecIngestDoc \<Rightarrow> Path" where
  "filename d = tmp_download_file d"

definition output_filename :: "'c FsspecIngestDoc \<Rightarrow> Path" where
  "output_filename d =
     truediv (to_Path (output_dir (standard_config d)))
       (str_replace (dir_path (config d) @ ''/'') '''' (remote_file_path d) @ ''.json'')"

text \<open>
  \<^verbatim>\<open>process_file\<close> and \<^verbatim>\<open>write_result\<close>. The method of the base class that each
  calls through \<^verbatim>\<open>super()\<close> is the parameter \<open>base\<close>; it may raise, return a value or
  \<^verbatim>\<open>None\<close>, and change the state.
\<close>

definition process_file ::
  "('c FsspecIngestDoc \<Rightarrow> world \<Rightarrow> (error + 'r option) \<times> world) \<Rightarrow>
   'c FsspecIngestDoc \<Rightarrow> world \<Rightarrow> (error + 'r option) \<times> world" where
  "process_file base d w =
     (if is_compressed d
      then (Inr None,
            emit (LogWarning (''file detected as zip, skipping process file: ''
                              @ as_posix (filename d))) w)
      else base d w)"

definition write_result ::
  "('c FsspecIngestDoc \<Rightarrow> world \<Rightarrow> (error + 'r option) \<times> world) \<Rightarrow>
   'c FsspecIngestDoc \<Rightarrow> world \<Rightarrow> (error + 'r option) \<times> world" where
  "write_result base d w =
     (if is_compressed d
      then (Inr None,
            emit (LogWarning (''file detected as zip, skipping write results: ''
                              @ as_posix (filename d))) w)
      else base d w)"

text \<open>
  \<^verbatim>\<open>mkdir(parents=True, exist_ok=True)\<close> on the parent of the download path: that
  directory and every directory above it exist afterwards (the call is taken to succeed).
\<close>

definition create_full_tmp_dir_path :: "'c FsspecIngestDoc \<Rightarrow> world \<Rightarrow> world" where
  "create_full_tmp_dir_path d w =
     (let p = parent (tmp_download_file d)
      in w\<lparr>dirs := dirs w \<union>
               set (map (\<lambda>ps. as_posix (Path (path_root p) ps)) (prefixes (path_parts p)))\<rparr>)"

text \<open>
  The methods below mutate the document and the state and may raise: each returns the
  exception, if one was raised, with the document and the state as they are at that point.
\<close>

definition process_zip ::
  "'c env \<Rightarrow> string \<Rightarrow> 'c FsspecIngestDoc \<Rightarrow> world \<Rightarrow> error option \<times> 'c FsspecIngestDoc \<times> world" where
  "process_zip e zip_path d w =
     (let (head, tail) = os_path_split zip_path;
          p = os_path_join head (tail @ ''-zip-uncompressed'');
          w1 = emit (LogInfo (''extracting zip '' @ zip_path @ '' -> '' @ p)) w
      in case zip_extractall e zip_path p of
           Inl err \<Rightarrow> (Some err, d, w1)
         | Inr written \<Rightarrow>
             (None, d\<lparr>children := children d @ local_get_ingest_docs e p\<rparr>,
              w1\<lparr>files := files w1 \<union> set written\<rparr>))"

definition process_tar ::
  "'c env \<Rightarrow> string \<Rightarrow> 'c FsspecIngestDoc \<Rightarrow> world \<Rightarrow> error option \<times> 'c FsspecIngestDoc \<times> world" where
  "process_tar e tar_path d w =
     (let (head, tail) = os_path_split tar_path;
          p = os_path_join head (tail @ ''-tar-uncompressed'');
          w1 = emit (LogInfo (''extracting tar '' @ tar_path @ '' -> '' @ p)) w
      in case tar_extractall e tar_path p of
           Inl (ReadError read_error) \<Rightarrow>
             (None, d,
              emit (LogError (''failed to uncompress tar '' @ tar_path @ '': '' @ read_error)) w1)
         | Inl err \<Rightarrow> (Some err, d, w1)
         | Inr written \<Rightarrow>
             (None, d\<lparr>children := children d @ local_get_ingest_docs e p\<rparr>,
              w1\<lparr>files := files w1 \<union> set written\<rparr>))"

text \<open>
  The body of \<^verbatim>\<open>get_file\<close>, without its decorator. The debug message is shortened to
  the remote path (the source prints the whole document and the process id); building
  the file system object from the protocol is taken to succeed.
\<close>

definition get_file_body ::
  "'c env \<Rightarrow> 'c FsspecIngestDoc \<Rightarrow> world \<Rightarrow> error option \<times> 'c FsspecIngestDoc \<times> world" where
  "get_file_body e d w =
     (let lpath = as_posix (tmp_download_file d);
          w1 = emit (LogDebug (''Fetching '' @ remote_file_path d)) (create_full_tmp_dir_path d w);
          w2 = w1\<lparr>fetch_calls := fetch_calls w1 @ [(remote_file_path d, lpath)]\<rparr>
      in case fs_get e (remote_file_path d) lpath of
           Some err \<Rightarrow> (Some err, d, w2)
         | None \<Rightarrow>
             (let w3 = w2\<lparr>files := insert lpath (files w2)\<rparr>;
                  (r, d1, w4) =
                    (if is_zipfile e lpath
                     then (let dz = d\<lparr>is_compressed := True\<rparr>
                           in if uncompress (config dz) then process_zip e lpath dz w3
                              else (None, dz, w3))
                     else (None, d, w3))
              in case r of
                   Some err \<Rightarrow> (Some err, d1, w4)
                 | None \<Rightarrow>
                     (if is_tarfile e lpath
                      then (let dt = d1\<lparr>is_compressed := True\<rparr>
                            in if uncompress (config dt) then process_tar e lpath dt w4
                               else (None, dt, w4))
                      else (None, d1, w4))))"



section \<open>The connector\<close>

text \<open>
  \<^verbatim>\<open>initialize\<close> lists the path (the default listing has one entry per object, as the
  detailed one) and looks at the number of entries only.
\<close>

definition initialize :: "'c env \<Rightarrow> SimpleFsspecConfig \<Rightarrow> error + unit" where
  "initialize e cfg =
     (case fs_ls e (path_without_protocol cfg) of
        Inl err \<Rightarrow> Inl err
      | Inr ls_output \<Rightarrow>
          if length ls_output < 1 then Inl (NoObjectsFound (path cfg)) else Inr ())"

text \<open>\<^verbatim>\<open>v > 0\<close> for what \<^verbatim>\<open>.get("size")\<close> returned.\<close>

fun gt_zero :: "pyval \<Rightarrow> error + bool" where
  "gt_zero PyNone = Inl TypeError"
| "gt_zero (PyInt n) = Inr (n > 0)"

text \<open>
  The list comprehension \<^verbatim>\<open>[k for k, v in xs if v > 0]\<close>: the first comparison that
  raises ends it.
\<close>

fun keep_sized :: "('a \<times> pyval) list \<Rightarrow> error + 'a list" where
  "keep_sized [] = Inr []"
| "keep_sized ((k, v) # xs) =
     (case gt_zero v of
        Inl err \<Rightarrow> Inl err
      | Inr b \<Rightarrow>
          (case keep_sized xs of
             Inl err \<Rightarrow> Inl err
           | Inr ks \<Rightarrow> Inr (if b then k # ks else ks)))"

definition list_files :: "'c env \<Rightarrow> SimpleFsspecConfig \<Rightarrow> error + string list" where
  "list_files e cfg =
     (if \<not> recursive cfg
      then (case fs_ls e (path_without_protocol cfg) of
              Inl err \<Rightarrow> Inl err
            | Inr xs \<Rightarrow> keep_sized (map (\<lambda>x. (name x, entry_size x)) xs))
      else (case fs_find e (path_without_protocol cfg) of
              Inl err \<Rightarrow> Inl err
            | Inr kvs \<Rightarrow> keep_sized (map (\<lambda>(k, v). (k, entry_size v)) kvs)))"

definition get_ingest_docs ::
  "'c env \<Rightarrow> StandardConnectorConfig \<Rightarrow> SimpleFsspecConfig \<Rightarrow> error + 'c FsspecIngestDoc list" where
  "get_ingest_docs e sc cfg =
     (case list_files e cfg of
        Inl err \<Rightarrow> Inl err
      | Inr fs \<Rightarrow>
          Inr (map (\<lambda>file. \<lparr>standard_config = sc, config = cfg, remote_file_path = file,
                             is_compressed = False, children = []\<rparr>) fs))"

section \<open>Notions used in the statements\<close>

text \<open>A reported size that is a number strictly greater than zero.\<close>

fun positive :: "pyval \<Rightarrow> bool" where
  "positive PyNone = False"
| "positive (PyInt n) = (0 < n)"

text \<open>
  The path \<^verbatim>\<open>process_zip\<close> and \<^verbatim>\<open>process_tar\<close> extract to: the archive's path with
  \<^verbatim>\<open>-zip-uncompressed\<close> or \<^verbatim>\<open>-tar-uncompressed\<close> appended to its last component.
\<close>

definition extraction_dir :: "string \<Rightarrow> string \<Rightarrow> string" where
  "extraction_dir kind p =
     os_path_join (fst (os_path_split p)) (snd (os_path_split p) @ ''-'' @ kind @ ''-uncompressed'')"


section \<open>Concrete inputs for the examples\<close>

text \<open>
  A remote file system whose listing is \<open>xs\<close>, whose downloads succeed and are neither
  zip nor tar archives; the examples change single fields of it.
\<close>

definition stub_env :: "entry list \<Rightarrow> string env" where
  "stub_env xs =
     \<lparr>fs_ls = (\<lambda>p. Inr xs), fs_find = (\<lambda>p. Inr (map (\<lambda>x. (name x, x)) xs)),
      fs_get = (\<lambda>r l. None), is_zipfile = (\<lambda>p. False), is_tarfile = (\<lambda>p. False),
      zip_extractall = (\<lambda>z p. Inr []), tar_extractall = (\<lambda>z p. Inr []),
      local_get_ingest_docs = (\<lambda>p. [])\<rparr>"

text \<open>The configuration that \<^verbatim>\<open>s3://bucket/docs\<close> parses to, with archive expansion on.\<close>

definition s3_config :: SimpleFsspecConfig where
  "s3_config =
     \<lparr>path = ''s3://bucket/docs'', recursive = False, access_kwargs = [], protocol = ''s3'',
      path_without_protocol = ''bucket/docs'', dir_path = ''bucket'', file_path = ''docs'',
      uncompress = True\<rparr>"

definition dirs_config :: StandardConnectorConfig where
  "dirs_config = \<lparr>download_dir = ''/tmp/dl'', output_dir = ''out''\<rparr>"

definition doc_at :: "string \<Rightarrow> string FsspecIngestDoc" where
  "doc_at key =
     \<lparr>standard_config = dirs_config, config = s3_config, remote_file_path = key,
      is_compressed = False, children = []\<rparr>"

definition empty_world :: world where
  "empty_world = \<lparr>files = {}, dirs = {}, logs = [], fetch_calls = []\<rparr>"

section \<open>Properties of the address parser\<close>

text \<open>
  \<open>sublist sep s\<close> says that \<open>sep\<close> occurs in \<open>s\<close>. A string without the separator
  is one piece; a string \<open>a @ ''://'' @ b\<close> whose \<open>a\<close> has no separator is cut first
  right after \<open>a\<close>, since no occurrence of \<^verbatim>\<open>://\<close> can start inside \<open>a\<close> and run
  into the separator.
\<close>

lemma str_split_no_sep: "\<not> sublist sep s \<Longrightarrow> str_split sep s = [s]"
  by (induction s) (auto simp: sublist_Cons_right)

lemma prefix_sep_straddle:
  assumes "prefix ''://'' (c # a @ ''://'' @ b)"
  shows "prefix ''://'' (c # a)"
proof (cases a)
  case Nil
  with assms show ?thesis by simp
next
  case (Cons x xs)
  with assms show ?thesis by (cases xs) auto
qed

lemma str_split_first_sep:
  assumes sep: "sep = ''://''" and a: "\<not> sublist sep a"
  shows "str_split sep (a @ sep @ b) = a # str_split sep b"
  using a
proof (induction a)
  case Nil
  show ?case by (simp add: sep)
next
  case (Cons c a)
  from Cons.prems have np: "\<not> prefix sep (c # a)" and ns: "\<not> sublist sep a"
    by (simp_all add: sublist_Cons_right)
  from np have "\<not> prefix sep (c # a @ sep @ b)"
    unfolding sep using prefix_sep_straddle by blast
  then have "str_split sep ((c # a) @ sep @ b) =
      (case str_split sep (a @ sep @ b) of [] \<Rightarrow> [[c]] | h # t \<Rightarrow> (c # h) # t)"
    by simp
  with Cons.IH [OF ns] show ?case by simp
qed

lemma strip_prefix_append: "strip_prefix xs (xs @ ys) = Some ys"
  by (induction xs) auto

lemma after_protocol_eq: "after_protocol proto (proto @ ''://'' @ r) = Some r"
  unfolding after_protocol_def using strip_prefix_append [of "proto @ ''://''" r] by simp

lemma supported_no_sep: "proto \<in> set SUPPORTED_REMOTE_FSSPEC_PROTOCOLS \<Longrightarrow> \<not> sublist ''://'' proto"
  by (auto simp: SUPPORTED_REMOTE_FSSPEC_PROTOCOLS_def sublist_code)

lemma split_address:
  assumes "\<not> sublist ''://'' proto" "\<not> sublist ''://'' r"
  shows "str_split ''://'' (proto @ ''://'' @ r) = [proto, r]"
  using str_split_first_sep [OF refl assms(1), of r] str_split_no_sep [OF assms(2)] by simp


lemma str_split_not_Nil: "str_split sep s \<noteq> []"
  by (induction s) (auto split: list.splits)

lemma str_split_sep_length: "sublist sep s \<Longrightarrow> sep \<noteq> [] \<Longrightarrow> 2 \<le> length (str_split sep s)"
proof (induction s)
  case Nil
  then show ?case by simp
next
  case (Cons c s)
  show ?case
  proof (cases "prefix sep (c # s)")
    case True
    then show ?thesis
      using str_split_not_Nil [of sep "drop (length sep - 1) s"]
      by (cases "str_split sep (drop (length sep - 1) s)") auto
  next
    case False
    with Cons.prems have "sublist sep s" by (simp add: sublist_Cons_right)
    with Cons.IH Cons.prems have "2 \<le> length (str_split sep s)" by simp
    with False show ?thesis by (auto split: list.splits)
  qed
qed

lemma is_space_not_name_char: "is_space c \<Longrightarrow> \<not> name_char c"
  by (simp add: name_char_def)

lemma takeWhile_name_char_ne_space: "takeWhile name_char r \<noteq> '' ''"
proof
  assume "takeWhile name_char r = '' ''"
  then have "CHR '' '' \<in> set (takeWhile name_char r)" by simp
  then have "name_char (CHR '' '')" by (rule set_takeWhileD [THEN conjunct2])
  then show False by (simp add: name_char_def is_space_def)
qed

text \<open>
  Claim C7, as the code has it. The tuple assignment takes exactly two pieces, so the
  address must hold \<^verbatim>\<open>://\<close> exactly once:
  \<^item> a string without \<^verbatim>\<open>://\<close> fails (with the \<^verbatim>\<open>ValueError\<close> of the unpacking);
  \<^item> a string with a second \<^verbatim>\<open>://\<close> after the first fails as well: the remainder may
    not contain \<^verbatim>\<open>://\<close>;
  \<^item> with exactly one \<^verbatim>\<open>://\<close>, a backend outside the supported list is rejected,
    before any of the patterns is tried;
  \<^item> with exactly one \<^verbatim>\<open>://\<close>, a successful parse has the text before it as the
    protocol, the text after it as the path without protocol, and a supported protocol.
  The parser is a pure function of the address, so no rejection involves the network.
\<close>

theorem post_init_separator:
  "(\<not> sublist ''://'' p \<longrightarrow> post_init p rec kw unc = Inl NotEnoughValues) \<and>
   (\<not> sublist ''://'' a \<and> sublist ''://'' b \<longrightarrow>
      post_init (a @ ''://'' @ b) rec kw unc = Inl TooManyValues) \<and>
   (\<not> sublist ''://'' a \<and> \<not> sublist ''://'' b \<and> a \<notin> set SUPPORTED_REMOTE_FSSPEC_PROTOCOLS \<longrightarrow>
      post_init (a @ ''://'' @ b) rec kw unc = Inl (ProtocolNotSupported a)) \<and>
   (\<not> sublist ''://'' a \<and> \<not> sublist ''://'' b \<longrightarrow>
      (\<forall>cfg. post_init (a @ ''://'' @ b) rec kw unc = Inr cfg \<longrightarrow>
         protocol cfg = a \<and> path_without_protocol cfg = b \<and>
         a \<in> set SUPPORTED_REMOTE_FSSPEC_PROTOCOLS))"
  (is "?none \<and> ?many \<and> ?unsupported \<and> ?one")
proof -
  define q where "q = a @ ''://'' @ b"
  have ?none
  proof
    assume "\<not> sublist ''://'' p"
    then have "str_split ''://'' p = [p]" by (rule str_split_no_sep)
    then show "post_init p rec kw unc = Inl NotEnoughValues"
      unfolding post_init_def by simp
  qed
  moreover have ?many
  proof
    assume h: "\<not> sublist ''://'' a \<and> sublist ''://'' b"
    then have "2 \<le> length (str_split ''://'' b)" by (simp add: str_split_sep_length)
    then obtain x y zs where "str_split ''://'' b = x # y # zs"
      by (cases "str_split ''://'' b" rule: list.exhaust; cases "tl (str_split ''://'' b)") auto
    moreover from h have "str_split ''://'' q = a # str_split ''://'' b"
      unfolding q_def using str_split_first_sep [OF refl, of a b] by simp
    ultimately have "str_split ''://'' q = a # x # y # zs" by simp
    then have "post_init q rec kw unc = Inl TooManyValues"
      unfolding post_init_def by simp
    then show "post_init (a @ ''://'' @ b) rec kw unc = Inl TooManyValues"
      unfolding q_def .
  qed
  moreover have ?unsupported
  proof
    assume h: "\<not> sublist ''://'' a \<and> \<not> sublist ''://'' b \<and>
               a \<notin> set SUPPORTED_REMOTE_FSSPEC_PROTOCOLS"
    then have "str_split ''://'' q = [a, b]"
      unfolding q_def using split_address by blast
    with h have "post_init q rec kw unc = Inl (ProtocolNotSupported a)"
      unfolding post_init_def by simp
    then show "post_init (a @ ''://'' @ b) rec kw unc = Inl (ProtocolNotSupported a)"
      unfolding q_def .
  qed
  moreover have ?one
  proof (intro impI allI)
    fix cfg
    assume h: "\<not> sublist ''://'' a \<and> \<not> sublist ''://'' b"
      and r: "post_init (a @ ''://'' @ b) rec kw unc = Inr cfg"
    from h have s: "str_split ''://'' q = [a, b]"
      unfolding q_def using split_address by blast
    from r have "post_init q rec kw unc = Inr cfg" unfolding q_def .
    with s show "protocol cfg = a \<and> path_without_protocol cfg = b \<and>
           a \<in> set SUPPORTED_REMOTE_FSSPEC_PROTOCOLS"
      unfolding post_init_def
      by (auto simp: Let_def split: if_splits option.splits)
  qed
  ultimately show ?thesis by blast
qed

text \<open>
  The claim as stated has the address cut at the first \<^verbatim>\<open>://\<close>, so that
  \<^verbatim>\<open>s3://bucket/a://b\<close> would parse with the remainder \<^verbatim>\<open>bucket/a://b\<close>. The code
  rejects it.
\<close>

theorem post_init_separator_counterexample:
  "post_init ''s3://bucket/a://b'' False [] False = Inl TooManyValues"
  by (simp add: post_init_def)

lemma parsed_address:
  assumes "proto \<in> set SUPPORTED_REMOTE_FSSPEC_PROTOCOLS" "\<not> sublist ''://'' r"
    and "p = proto @ ''://'' @ r"
  shows "str_split ''://'' p = [proto, r]" and "after_protocol proto p = Some r"
  using split_address [OF supported_no_sep [OF assms(1)] assms(2)] after_protocol_eq [of proto r]
  unfolding assms(3) by simp_all

lemma match_root_only_group:
  "after_protocol proto p = Some r \<Longrightarrow> match_root_only proto p = Some g \<Longrightarrow>
   g = takeWhile name_char r"
  unfolding match_root_only_def by (simp add: Let_def split: if_splits)

lemma match_dir_file_group:
  "after_protocol proto p = Some r \<Longrightarrow> match_dir_file proto p = Some (g, f) \<Longrightarrow>
   g = takeWhile name_char r"
  unfolding match_dir_file_def by (simp add: Let_def split: list.splits if_splits)

lemma post_init_two_pieces:
  assumes "str_split ''://'' p = [proto, r]"
  shows "post_init p rec kw unc =
     (if proto \<notin> set SUPPORTED_REMOTE_FSSPEC_PROTOCOLS then Inl (ProtocolNotSupported proto)
      else if match_rootless proto p \<noteq> None \<and> proto = ''dropbox''
      then Inr \<lparr>path = p, recursive = rec, access_kwargs = kw, protocol = proto,
                path_without_protocol = r, dir_path = '' '', file_path = '''',
                uncompress = unc\<rparr>
      else (case match_root_only proto p of
              Some g1 \<Rightarrow> Inr \<lparr>path = p, recursive = rec, access_kwargs = kw, protocol = proto,
                path_without_protocol = r, dir_path = g1, file_path = '''', uncompress = unc\<rparr>
            | None \<Rightarrow>
                (case match_dir_file proto p of
                   None \<Rightarrow> Inl (InvalidPath p)
                 | Some (g1, g2) \<Rightarrow> Inr \<lparr>path = p, recursive = rec, access_kwargs = kw,
                     protocol = proto, path_without_protocol = r, dir_path = g1,
                     file_path = g2, uncompress = unc\<rparr>)))"
  unfolding post_init_def assms by (simp add: Let_def)

text \<open>
  Claim C5, as the code has it. For a supported protocol and a remainder without
  \<^verbatim>\<open>://\<close>, the parse gives the root \<^verbatim>\<open>" "\<close> exactly when the protocol is
  \<^verbatim>\<open>dropbox\<close> and the remainder begins with one whitespace character followed by a
  slash; what comes after that slash does not matter. In that case the root is a single
  space and the object path is empty.
\<close>

theorem rootless_shape:
  assumes "proto \<in> set SUPPORTED_REMOTE_FSSPEC_PROTOCOLS" and "\<not> sublist ''://'' r"
  shows "((\<exists>cfg. post_init (proto @ ''://'' @ r) rec kw unc = Inr cfg \<and> dir_path cfg = '' '') \<longleftrightarrow>
          proto = ''dropbox'' \<and> (\<exists>c t. r = c # CHR ''/'' # t \<and> is_space c)) \<and>
         (proto = ''dropbox'' \<and> (\<exists>c t. r = c # CHR ''/'' # t \<and> is_space c) \<longrightarrow>
          post_init (proto @ ''://'' @ r) rec kw unc =
            Inr \<lparr>path = proto @ ''://'' @ r, recursive = rec, access_kwargs = kw,
                 protocol = proto, path_without_protocol = r, dir_path = '' '',
                 file_path = '''', uncompress = unc\<rparr>)"
proof -
  define p where "p = proto @ ''://'' @ r"
  define shaped where "shaped \<longleftrightarrow> (\<exists>c t. r = c # CHR ''/'' # t \<and> is_space c)"
  note pa = parsed_address [OF assms p_def]
  note pi = post_init_two_pieces [OF pa(1), of rec kw unc]
  have shape: "match_rootless proto p \<noteq> None \<longleftrightarrow> shaped"
    unfolding match_rootless_def pa(2) shaped_def by (auto split: list.splits)
  have hit: "post_init p rec kw unc =
            Inr \<lparr>path = p, recursive = rec, access_kwargs = kw,
                 protocol = proto, path_without_protocol = r, dir_path = '' '',
                 file_path = '''', uncompress = unc\<rparr>"
    if "proto = ''dropbox'' \<and> shaped"
    unfolding pi using that shape assms(1) by simp
  have miss: "dir_path cfg \<noteq> '' ''"
    if res: "post_init p rec kw unc = Inr cfg" and no: "\<not> (proto = ''dropbox'' \<and> shaped)" for cfg
  proof (cases "match_root_only proto p")
    case (Some g1)
    with res no shape assms(1) have "dir_path cfg = g1" unfolding pi by auto
    with match_root_only_group [OF pa(2) Some] takeWhile_name_char_ne_space [of r]
    show ?thesis by simp
  next
    case None
    show ?thesis
    proof (cases "match_dir_file proto p")
      case n: None
      with None res no shape assms(1) show ?thesis unfolding pi by auto
    next
      case (Some gf)
      obtain g1 g2 where gf: "gf = (g1, g2)" by (cases gf)
      with Some None res no shape assms(1) have "dir_path cfg = g1" unfolding pi by auto
      with match_dir_file_group [OF pa(2) Some [unfolded gf]] takeWhile_name_char_ne_space [of r]
      show ?thesis by simp
    qed
  qed
  have "(\<exists>cfg. post_init p rec kw unc = Inr cfg \<and> dir_path cfg = '' '') \<longleftrightarrow>
          proto = ''dropbox'' \<and> shaped"
    using hit miss by fastforce
  with hit show ?thesis unfolding p_def shaped_def by blast
qed

text \<open>
  The claim as stated fails twice: the address it names, with two spaces before the
  slash, is rejected as an invalid path; and an address with more text after the slash
  is taken for the rootless shape too, its object path dropped.
\<close>

theorem rootless_shape_counterexample:
  "post_init ''dropbox://  /'' False [] False = Inl (InvalidPath ''dropbox://  /'') \<and>
   post_init ''dropbox:// /foo/bar'' False [] False =
     Inr \<lparr>path = ''dropbox:// /foo/bar'', recursive = False, access_kwargs = [],
          protocol = ''dropbox'', path_without_protocol = '' /foo/bar'', dir_path = '' '',
          file_path = '''', uncompress = False\<rparr>"
  by (simp add: post_init_def match_rootless_def match_root_only_def match_dir_file_def
      after_protocol_def SUPPORTED_REMOTE_FSSPEC_PROTOCOLS_def is_space_def name_char_def)

text \<open>
  Claim C8, as the code has it. For a supported protocol and a remainder made of a
  non-empty run of characters other than the slash and whitespace, followed by any
  number of slashes, and holding no \<^verbatim>\<open>://\<close>, the parse gives the run as the root
  and an empty object path.
\<close>

theorem root_only_shape:
  assumes "proto \<in> set SUPPORTED_REMOTE_FSSPEC_PROTOCOLS"
    and "n \<noteq> []" and "\<forall>c \<in> set n. name_char c"
    and "\<not> sublist ''://'' (n @ replicate k (CHR ''/''))"
  shows "post_init (proto @ ''://'' @ n @ replicate k (CHR ''/'')) rec kw unc =
           Inr \<lparr>path = proto @ ''://'' @ n @ replicate k (CHR ''/''), recursive = rec,
                access_kwargs = kw, protocol = proto,
                path_without_protocol = n @ replicate k (CHR ''/''), dir_path = n,
                file_path = '''', uncompress = unc\<rparr>"
proof -
  define r where "r = n @ replicate k (CHR ''/'')"
  define p where "p = proto @ ''://'' @ r"
  from assms(4) have "\<not> sublist ''://'' r" unfolding r_def .
  note pa = parsed_address [OF assms(1) this p_def]
  note pi = post_init_two_pieces [OF pa(1), of rec kw unc]
  have slash: "\<not> name_char (CHR ''/'')" by (simp add: name_char_def)
  have tw: "takeWhile name_char r = n"
    unfolding r_def using assms(3) slash by (simp add: takeWhile_replicate)
  have dw: "dropWhile name_char r = replicate k (CHR ''/'')"
    unfolding r_def using assms(3) slash by (simp add: dropWhile_replicate)
  have ro: "match_root_only proto p = Some n"
    unfolding match_root_only_def pa(2) using tw dw assms(2)
    by (simp add: Let_def dropWhile_replicate)
  obtain c n' where n: "n = c # n'" using assms(2) by (cases n) auto
  with assms(3) have "\<not> is_space c" by (simp add: name_char_def)
  then have rl: "match_rootless proto p = None"
    unfolding match_rootless_def pa(2) r_def n by (cases n'; cases k) auto
  have "post_init p rec kw unc =
           Inr \<lparr>path = p, recursive = rec, access_kwargs = kw, protocol = proto,
                path_without_protocol = r, dir_path = n, file_path = '''', uncompress = unc\<rparr>"
    unfolding pi using assms(1) ro rl by simp
  then show ?thesis unfolding p_def r_def .
qed

text \<open>
  The claim as stated covers remainders with whitespace. The remainder
  \<^verbatim>\<open>my bucket\<close> has no slash at all, and the code rejects the address.
\<close>

theorem root_only_shape_counterexample:
  "post_init ''s3://my bucket'' False [] False = Inl (InvalidPath ''s3://my bucket'')"
  by (simp add: post_init_def match_rootless_def match_root_only_def match_dir_file_def
      after_protocol_def SUPPORTED_REMOTE_FSSPEC_PROTOCOLS_def is_space_def name_char_def)

text \<open>The theorems on the parser at concrete addresses.\<close>

theorem root_only_shape_witness:
  "''s3'' \<in> set SUPPORTED_REMOTE_FSSPEC_PROTOCOLS \<and> ''bucket'' \<noteq> [] \<and>
   list_all name_char ''bucket'' \<and> \<not> sublist ''://'' (''bucket'' @ replicate 2 (CHR ''/'')) \<and>
   post_init ''s3://bucket//'' True [] False =
     Inr \<lparr>path = ''s3://bucket//'', recursive = True, access_kwargs = [], protocol = ''s3'',
          path_without_protocol = ''bucket//'', dir_path = ''bucket'', file_path = '''',
          uncompress = False\<rparr>"
proof -
  have h1: "''s3'' \<in> set SUPPORTED_REMOTE_FSSPEC_PROTOCOLS"
    by (simp add: SUPPORTED_REMOTE_FSSPEC_PROTOCOLS_def)
  have h2: "''bucket'' \<noteq> []" by simp
  have h3: "\<forall>c \<in> set ''bucket''. name_char c" by (simp add: name_char_def is_space_def)
  have h4: "\<not> sublist ''://'' (''bucket'' @ replicate 2 (CHR ''/''))"
    by (simp add: sublist_code numeral_2_eq_2)
  show ?thesis
    using h1 h2 h3 h4 root_only_shape [OF h1 h2 h3 h4, of True "[]" False]
    by (simp add: numeral_2_eq_2)
qed

theorem rootless_shape_witness:
  "''dropbox'' \<in> set SUPPORTED_REMOTE_FSSPEC_PROTOCOLS \<and> \<not> sublist ''://'' '' /'' \<and>
   (\<exists>c t. '' /'' = c # CHR ''/'' # t \<and> is_space c) \<and>
   post_init ''dropbox:// /'' False [] False =
     Inr \<lparr>path = ''dropbox:// /'', recursive = False, access_kwargs = [],
          protocol = ''dropbox'', path_without_protocol = '' /'', dir_path = '' '',
          file_path = '''', uncompress = False\<rparr>"
proof -
  have h1: "''dropbox'' \<in> set SUPPORTED_REMOTE_FSSPEC_PROTOCOLS"
    by (simp add: SUPPORTED_REMOTE_FSSPEC_PROTOCOLS_def)
  have h2: "\<not> sublist ''://'' '' /''" by (simp add: sublist_code)
  have h3: "\<exists>c t. '' /'' = c # CHR ''/'' # t \<and> is_space c" by (simp add: is_space_def)
  show ?thesis
    using h1 h2 h3 rootless_shape [OF h1 h2, of False "[]" False] by simp
qed

theorem post_init_separator_witness:
  "\<not> sublist ''://'' ''bucket/key'' \<and>
   post_init ''bucket/key'' False [] False = Inl NotEnoughValues \<and>
   \<not> sublist ''://'' ''s3'' \<and> sublist ''://'' ''a://b'' \<and>
   post_init ''s3://a://b'' False [] False = Inl TooManyValues \<and>
   \<not> sublist ''://'' ''ftp'' \<and> \<not> sublist ''://'' ''host'' \<and>
   ''ftp'' \<notin> set SUPPORTED_REMOTE_FSSPEC_PROTOCOLS \<and>
   post_init ''ftp://host'' False [] False = Inl (ProtocolNotSupported ''ftp'') \<and>
   \<not> sublist ''://'' ''bucket/key'' \<and>
   (\<exists>cfg. post_init ''s3://bucket/key'' False [] False = Inr cfg \<and> protocol cfg = ''s3'' \<and>
      path_without_protocol cfg = ''bucket/key'')"
proof -
  have h1: "\<not> sublist ''://'' ''bucket/key''" by (simp add: sublist_code)
  have h2: "\<not> sublist ''://'' ''s3''" by (simp add: sublist_code)
  have h3: "sublist ''://'' ''a://b''" by (simp add: sublist_code)
  have h4: "\<not> sublist ''://'' ''ftp''" "\<not> sublist ''://'' ''host''"
    by (simp_all add: sublist_code)
  have h5: "''ftp'' \<notin> set SUPPORTED_REMOTE_FSSPEC_PROTOCOLS"
    by (simp add: SUPPORTED_REMOTE_FSSPEC_PROTOCOLS_def)
  have r: "post_init ''s3://bucket/key'' False [] False =
     Inr \<lparr>path = ''s3://bucket/key'', recursive = False, access_kwargs = [], protocol = ''s3'',
          path_without_protocol = ''bucket/key'', dir_path = ''bucket'', file_path = ''key'',
          uncompress = False\<rparr>"
    by (simp add: post_init_def match_rootless_def match_root_only_def match_dir_file_def
      after_protocol_def SUPPORTED_REMOTE_FSSPEC_PROTOCOLS_def is_space_def name_char_def)
  show ?thesis
    using h1 h2 h3 h4 h5 r
      post_init_separator [where p = "''bucket/key''" and a = "''s3''" and b = "''a://b''"]
      post_init_separator [where a = "''ftp''" and b = "''host''"]
      post_init_separator [where a = "''s3''" and b = "''bucket/key''"]
    by simp
qed

section \<open>Properties of the corpus lister\<close>

lemma keep_sized_numeric:
  "PyNone \<notin> snd ` set xs \<Longrightarrow>
   keep_sized xs = Inr (map fst (filter (\<lambda>kv. positive (snd kv)) xs))"
proof (induction xs)
  case Nil
  show ?case by simp
next
  case (Cons kv xs)
  obtain k v where kv: "kv = (k, v)" by (cases kv)
  from Cons.prems kv obtain n where v: "v = PyInt n" by (cases v) auto
  from Cons.prems have "PyNone \<notin> snd ` set xs" by auto
  with Cons.IH kv v show ?case by simp
qed

lemma keep_sized_missing:
  "PyNone \<in> snd ` set xs \<Longrightarrow> keep_sized xs = Inl TypeError"
proof (induction xs)
  case Nil
  then show ?case by simp
next
  case (Cons kv xs)
  obtain k v where kv: "kv = (k, v)" by (cases kv)
  show ?case
  proof (cases v)
    case PyNone
    with kv show ?thesis by simp
  next
    case (PyInt n)
    with Cons.prems kv have "PyNone \<in> snd ` set xs" by auto
    with Cons.IH kv PyInt show ?thesis by simp
  qed
qed

lemma keep_sized_raises: "(keep_sized ys = Inl TypeError) = (PyNone \<in> snd ` set ys)"
proof (cases "PyNone \<in> snd ` set ys")
  case True
  then show ?thesis by (simp add: keep_sized_missing)
next
  case False
  then show ?thesis by (simp add: keep_sized_numeric)
qed

lemma keep_sized_returns: "(\<exists>ks. keep_sized ys = Inr ks) = (PyNone \<notin> snd ` set ys)"
proof (cases "PyNone \<in> snd ` set ys")
  case True
  then show ?thesis by (simp add: keep_sized_missing)
next
  case False
  then show ?thesis by (simp add: keep_sized_numeric)
qed

lemma list_files_flat:
  "\<not> recursive cfg \<Longrightarrow> fs_ls e (path_without_protocol cfg) = Inr xs \<Longrightarrow>
   list_files e cfg = keep_sized (map (\<lambda>x. (name x, entry_size x)) xs)"
  by (simp add: list_files_def)

lemma list_files_deep:
  "recursive cfg \<Longrightarrow> fs_find e (path_without_protocol cfg) = Inr kvs \<Longrightarrow>
   list_files e cfg = keep_sized (map (\<lambda>(k, v). (k, entry_size v)) kvs)"
  by (simp add: list_files_def)

lemma sizes_flat: "snd ` set (map (\<lambda>x. (name x, entry_size x)) xs) = entry_size ` set xs"
  by (force simp: image_iff)

lemma sizes_deep: "snd ` set (map (\<lambda>(k, v). (k, entry_size v)) kvs) = (\<lambda>kv. entry_size (snd kv)) ` set kvs"
  by (force simp: image_iff split: prod.splits)

lemma names_flat:
  "map fst (filter (\<lambda>kv. positive (snd kv)) (map (\<lambda>x. (name x, entry_size x)) xs)) =
   map name (filter (\<lambda>x. positive (entry_size x)) xs)"
  by (induction xs) auto

lemma names_deep:
  "map fst (filter (\<lambda>kv. positive (snd kv)) (map (\<lambda>(k, v). (k, entry_size v)) kvs)) =
   map fst (filter (\<lambda>kv. positive (entry_size (snd kv))) kvs)"
  by (induction kvs) auto

text \<open>
  Claim C6. On a listing in which every entry reports a size, the lister returns, in
  the order of the listing, the names of exactly the entries whose size is strictly
  greater than zero: in the non-recursive mode from \<^verbatim>\<open>fs.ls\<close>, in the recursive mode
  the keys of \<^verbatim>\<open>fs.find\<close>. An entry of size zero is never kept.
\<close>

theorem list_files_keeps_positive:
  "(\<not> recursive cfg \<and> fs_ls e (path_without_protocol cfg) = Inr xs \<and>
      PyNone \<notin> entry_size ` set xs \<longrightarrow>
    list_files e cfg = Inr (map name (filter (\<lambda>x. positive (entry_size x)) xs))) \<and>
   (recursive cfg \<and> fs_find e (path_without_protocol cfg) = Inr kvs \<and>
      PyNone \<notin> (\<lambda>kv. entry_size (snd kv)) ` set kvs \<longrightarrow>
    list_files e cfg = Inr (map fst (filter (\<lambda>kv. positive (entry_size (snd kv))) kvs)))"
proof (intro conjI impI)
  assume h: "\<not> recursive cfg \<and> fs_ls e (path_without_protocol cfg) = Inr xs \<and>
      PyNone \<notin> entry_size ` set xs"
  then have "PyNone \<notin> snd ` set (map (\<lambda>x. (name x, entry_size x)) xs)"
    unfolding sizes_flat by simp
  from keep_sized_numeric [OF this] h
  show "list_files e cfg = Inr (map name (filter (\<lambda>x. positive (entry_size x)) xs))"
    by (simp add: list_files_flat names_flat)
next
  assume h: "recursive cfg \<and> fs_find e (path_without_protocol cfg) = Inr kvs \<and>
      PyNone \<notin> (\<lambda>kv. entry_size (snd kv)) ` set kvs"
  then have "PyNone \<notin> snd ` set (map (\<lambda>(k, v). (k, entry_size v)) kvs)"
    unfolding sizes_deep by simp
  from keep_sized_numeric [OF this] h
  show "list_files e cfg = Inr (map fst (filter (\<lambda>kv. positive (entry_size (snd kv))) kvs))"
    by (simp add: list_files_deep names_deep)
qed

theorem list_files_keeps_positive_witness:
  "\<not> recursive s3_config \<and>
   PyNone \<notin> entry_size ` set [\<lparr>name = ''bucket/docs/a.txt'', entry_size = PyInt 12\<rparr>,
                            \<lparr>name = ''bucket/docs/sub'', entry_size = PyInt 0\<rparr>,
                            \<lparr>name = ''bucket/docs/b.txt'', entry_size = PyInt 7\<rparr>] \<and>
   list_files (stub_env [\<lparr>name = ''bucket/docs/a.txt'', entry_size = PyInt 12\<rparr>,
                         \<lparr>name = ''bucket/docs/sub'', entry_size = PyInt 0\<rparr>,
                         \<lparr>name = ''bucket/docs/b.txt'', entry_size = PyInt 7\<rparr>]) s3_config =
     Inr [''bucket/docs/a.txt'', ''bucket/docs/b.txt''] \<and>
   recursive (s3_config\<lparr>recursive := True\<rparr>) \<and>
   list_files (stub_env [\<lparr>name = ''bucket/docs/a.txt'', entry_size = PyInt 12\<rparr>,
                         \<lparr>name = ''bucket/docs/sub'', entry_size = PyInt 0\<rparr>,
                         \<lparr>name = ''bucket/docs/b.txt'', entry_size = PyInt 7\<rparr>])
     (s3_config\<lparr>recursive := True\<rparr>) =
     Inr [''bucket/docs/a.txt'', ''bucket/docs/b.txt'']"
proof -
  define xs where "xs = [\<lparr>name = ''bucket/docs/a.txt'', entry_size = PyInt 12\<rparr>,
                            \<lparr>name = ''bucket/docs/sub'', entry_size = PyInt 0\<rparr>,
                            \<lparr>name = ''bucket/docs/b.txt'', entry_size = PyInt 7\<rparr>]"
  have h1: "\<not> recursive s3_config" by (simp add: s3_config_def)
  have h2: "fs_ls (stub_env xs) (path_without_protocol s3_config) = Inr xs"
    by (simp add: stub_env_def)
  have h3: "PyNone \<notin> entry_size ` set xs" by (simp add: xs_def)
  have h4: "recursive (s3_config\<lparr>recursive := True\<rparr>)" by simp
  have h5: "fs_find (stub_env xs) (path_without_protocol (s3_config\<lparr>recursive := True\<rparr>)) =
              Inr (map (\<lambda>x. (name x, x)) xs)"
    by (simp add: stub_env_def)
  have h6: "PyNone \<notin> (\<lambda>kv. entry_size (snd kv)) ` set (map (\<lambda>x. (name x, x)) xs)"
    by (simp add: xs_def)
  from h1 h2 h3 h4 h5 h6
    list_files_keeps_positive [of s3_config "stub_env xs" xs]
    list_files_keeps_positive [of "s3_config\<lparr>recursive := True\<rparr>" "stub_env xs" _
      "map (\<lambda>x. (name x, x)) xs"]
  show ?thesis unfolding xs_def by simp
qed

text \<open>
  Claim C10. The lister returns a list only when every entry of the listing reports a
  size: as soon as one entry lacks it (\<^verbatim>\<open>.get("size")\<close> is \<^verbatim>\<open>None\<close>), the comparison
  raises \<^verbatim>\<open>TypeError\<close> and the whole listing fails, in both modes; the entry is neither
  kept nor filtered.
\<close>

theorem list_files_missing_size:
  "(\<not> recursive cfg \<and> fs_ls e (path_without_protocol cfg) = Inr xs \<longrightarrow>
      (list_files e cfg = Inl TypeError) = (PyNone \<in> entry_size ` set xs) \<and>
      (\<exists>ks. list_files e cfg = Inr ks) = (PyNone \<notin> entry_size ` set xs)) \<and>
   (recursive cfg \<and> fs_find e (path_without_protocol cfg) = Inr kvs \<longrightarrow>
      (list_files e cfg = Inl TypeError) = (PyNone \<in> (\<lambda>kv. entry_size (snd kv)) ` set kvs) \<and>
      (\<exists>ks. list_files e cfg = Inr ks) = (PyNone \<notin> (\<lambda>kv. entry_size (snd kv)) ` set kvs))"
proof (intro conjI impI)
  assume h: "\<not> recursive cfg \<and> fs_ls e (path_without_protocol cfg) = Inr xs"
  define ys where "ys = map (\<lambda>x. (name x, entry_size x)) xs"
  from h have lf: "list_files e cfg = keep_sized ys"
    unfolding ys_def by (simp add: list_files_flat)
  have s: "snd ` set ys = entry_size ` set xs" unfolding ys_def by (rule sizes_flat)
  show "(list_files e cfg = Inl TypeError) = (PyNone \<in> entry_size ` set xs)"
    unfolding lf s [symmetric] by (rule keep_sized_raises)
  show "(\<exists>ks. list_files e cfg = Inr ks) = (PyNone \<notin> entry_size ` set xs)"
    unfolding lf s [symmetric] by (rule keep_sized_returns)
next
  assume h: "recursive cfg \<and> fs_find e (path_without_protocol cfg) = Inr kvs"
  define ys where "ys = map (\<lambda>(k, v). (k, entry_size v)) kvs"
  from h have lf: "list_files e cfg = keep_sized ys"
    unfolding ys_def by (simp add: list_files_deep)
  have s: "snd ` set ys = (\<lambda>kv. entry_size (snd kv)) ` set kvs" unfolding ys_def by (rule sizes_deep)
  show "(list_files e cfg = Inl TypeError) = (PyNone \<in> (\<lambda>kv. entry_size (snd kv)) ` set kvs)"
    unfolding lf s [symmetric] by (rule keep_sized_raises)
  show "(\<exists>ks. list_files e cfg = Inr ks) = (PyNone \<notin> (\<lambda>kv. entry_size (snd kv)) ` set kvs)"
    unfolding lf s [symmetric] by (rule keep_sized_returns)
qed

theorem list_files_missing_size_witness:
  "\<not> recursive s3_config \<and>
   PyNone \<in> entry_size ` set [\<lparr>name = ''bucket/docs/a.txt'', entry_size = PyInt 12\<rparr>,
                         \<lparr>name = ''bucket/docs/b.txt'', entry_size = PyNone\<rparr>] \<and>
   list_files (stub_env [\<lparr>name = ''bucket/docs/a.txt'', entry_size = PyInt 12\<rparr>,
                         \<lparr>name = ''bucket/docs/b.txt'', entry_size = PyNone\<rparr>]) s3_config =
     Inl TypeError \<and>
   recursive (s3_config\<lparr>recursive := True\<rparr>) \<and>
   list_files (stub_env [\<lparr>name = ''bucket/docs/a.txt'', entry_size = PyInt 12\<rparr>,
                         \<lparr>name = ''bucket/docs/b.txt'', entry_size = PyNone\<rparr>])
     (s3_config\<lparr>recursive := True\<rparr>) = Inl TypeError"
proof -
  define xs where "xs = [\<lparr>name = ''bucket/docs/a.txt'', entry_size = PyInt 12\<rparr>,
                         \<lparr>name = ''bucket/docs/b.txt'', entry_size = PyNone\<rparr>]"
  have h1: "\<not> recursive s3_config" by (simp add: s3_config_def)
  have h2: "fs_ls (stub_env xs) (path_without_protocol s3_config) = Inr xs"
    by (simp add: stub_env_def)
  have h3: "PyNone \<in> entry_size ` set xs" by (simp add: xs_def)
  have h4: "recursive (s3_config\<lparr>recursive := True\<rparr>)" by simp
  have h5: "fs_find (stub_env xs) (path_without_protocol (s3_config\<lparr>recursive := True\<rparr>)) =
              Inr (map (\<lambda>x. (name x, x)) xs)"
    by (simp add: stub_env_def)
  have h6: "PyNone \<in> (\<lambda>kv. entry_size (snd kv)) ` set (map (\<lambda>x. (name x, x)) xs)"
    by (simp add: xs_def)
  from h1 h2 h3 h4 h5 h6
    list_files_missing_size [of s3_config "stub_env xs" xs]
    list_files_missing_size [of "s3_config\<lparr>recursive := True\<rparr>" "stub_env xs" _
      "map (\<lambda>x. (name x, x)) xs"]
  show ?thesis unfolding xs_def by simp
qed

lemma keep_sized_all_zero:
  "snd ` set ys \<subseteq> {PyInt 0} \<Longrightarrow> keep_sized ys = Inr []"
proof -
  assume z: "snd ` set ys \<subseteq> {PyInt 0}"
  then have "PyNone \<notin> snd ` set ys" by auto
  then have "keep_sized ys = Inr (map fst (filter (\<lambda>kv. positive (snd kv)) ys))"
    by (rule keep_sized_numeric)
  moreover from z have "filter (\<lambda>kv. positive (snd kv)) ys = []"
    by (auto simp: filter_empty_conv)
  ultimately show ?thesis by simp
qed

text \<open>
  Claim C1, as the code has it. \<^verbatim>\<open>initialize\<close> looks at the listing before any
  filtering: when \<^verbatim>\<open>fs.ls\<close> returns, initialization fails with the no-objects error
  exactly when that raw listing is empty, and succeeds on every non-empty one. A
  non-recursive listing made only of zero-size entries therefore passes initialization
  when it is non-empty, and the document list built from it is empty.
\<close>

theorem initialize_raw_listing:
  assumes "fs_ls e (path_without_protocol cfg) = Inr xs"
  shows "(initialize e cfg = Inl (NoObjectsFound (path cfg))) = (xs = []) \<and>
         (initialize e cfg = Inr ()) = (xs \<noteq> []) \<and>
         (\<not> recursive cfg \<and> entry_size ` set xs \<subseteq> {PyInt 0} \<longrightarrow>
            list_files e cfg = Inr [] \<and> get_ingest_docs e sc cfg = Inr [])"
proof (intro conjI impI)
  show "(initialize e cfg = Inl (NoObjectsFound (path cfg))) = (xs = [])"
    using assms by (cases xs) (simp_all add: initialize_def)
  show "(initialize e cfg = Inr ()) = (xs \<noteq> [])"
    using assms by (cases xs) (simp_all add: initialize_def)
next
  assume h: "\<not> recursive cfg \<and> entry_size ` set xs \<subseteq> {PyInt 0}"
  then have "snd ` set (map (\<lambda>x. (name x, entry_size x)) xs) \<subseteq> {PyInt 0}"
    unfolding sizes_flat by simp
  from keep_sized_all_zero [OF this] h assms
  show lf: "list_files e cfg = Inr []" by (simp add: list_files_flat)
  then show "get_ingest_docs e sc cfg = Inr []" by (simp add: get_ingest_docs_def)
qed

text \<open>
  The claim as stated fails on a listing that holds one directory marker of size zero:
  the filtered listing is empty, yet initialization succeeds and the run goes on with an
  empty document list.
\<close>

theorem initialize_raw_listing_counterexample:
  "list_files (stub_env [\<lparr>name = ''bucket/docs/sub'', entry_size = PyInt 0\<rparr>]) s3_config = Inr [] \<and>
   initialize (stub_env [\<lparr>name = ''bucket/docs/sub'', entry_size = PyInt 0\<rparr>]) s3_config = Inr () \<and>
   get_ingest_docs (stub_env [\<lparr>name = ''bucket/docs/sub'', entry_size = PyInt 0\<rparr>])
     dirs_config s3_config = Inr []"
  by (simp add: list_files_def initialize_def get_ingest_docs_def stub_env_def s3_config_def)

theorem initialize_raw_listing_witness:
  "initialize (stub_env []) s3_config = Inl (NoObjectsFound ''s3://bucket/docs'') \<and>
   initialize (stub_env [\<lparr>name = ''bucket/docs/sub'', entry_size = PyInt 0\<rparr>]) s3_config = Inr () \<and>
   \<not> recursive s3_config \<and>
   entry_size ` set [\<lparr>name = ''bucket/docs/sub'', entry_size = PyInt 0\<rparr>] \<subseteq> {PyInt 0} \<and>
   get_ingest_docs (stub_env [\<lparr>name = ''bucket/docs/sub'', entry_size = PyInt 0\<rparr>])
     dirs_config s3_config = Inr []"
proof -
  define xs where "xs = [\<lparr>name = ''bucket/docs/sub'', entry_size = PyInt 0\<rparr>]"
  have h0: "fs_ls (stub_env []) (path_without_protocol s3_config) = Inr []"
    by (simp add: stub_env_def)
  have h1: "fs_ls (stub_env xs) (path_without_protocol s3_config) = Inr xs"
    by (simp add: stub_env_def)
  have h2: "\<not> recursive s3_config" by (simp add: s3_config_def)
  have h3: "entry_size ` set xs \<subseteq> {PyInt 0}" by (simp add: xs_def)
  have p: "path s3_config = ''s3://bucket/docs''" by (simp add: s3_config_def)
  from h2 h3 p initialize_raw_listing [OF h0, of dirs_config]
    initialize_raw_listing [OF h1, of dirs_config]
  show ?thesis unfolding xs_def by simp
qed

section \<open>Properties of the document lifecycle\<close>

text \<open>
  What expansion leaves alone: the fields the paths are computed from, the flag, the
  trace of fetches; local files are only added.
\<close>

lemma process_zip_frame:
  assumes "process_zip e p d w = (r, d', w')"
  shows "config d' = config d \<and> standard_config d' = standard_config d \<and>
    remote_file_path d' = remote_file_path d \<and> is_compressed d' = is_compressed d \<and>
    fetch_calls w' = fetch_calls w \<and> files w \<subseteq> files w'"
  using assms
  by (auto simp: process_zip_def emit_def Let_def split: prod.splits sum.splits)

lemma process_tar_frame:
  assumes "process_tar e p d w = (r, d', w')"
  shows "config d' = config d \<and> standard_config d' = standard_config d \<and>
    remote_file_path d' = remote_file_path d \<and> is_compressed d' = is_compressed d \<and>
    fetch_calls w' = fetch_calls w \<and> files w \<subseteq> files w'"
  using assms
  by (auto simp: process_tar_def emit_def Let_def split: prod.splits sum.splits error.splits)

lemma process_zip_raises:
  assumes "zip_extractall e p (extraction_dir ''zip'' p) = Inl err"
  shows "process_zip e p d w =
     (Some err, d,
      emit (LogInfo (''extracting zip '' @ p @ '' -> '' @ extraction_dir ''zip'' p)) w)"
proof -
  obtain h t where ht: "os_path_split p = (h, t)" by (cases "os_path_split p")
  then have x: "extraction_dir ''zip'' p = os_path_join h (t @ ''-zip-uncompressed'')"
    by (simp add: extraction_dir_def)
  from assms show ?thesis unfolding x process_zip_def ht by (simp add: Let_def)
qed

lemma process_tar_read_error:
  assumes "tar_extractall e p (extraction_dir ''tar'' p) = Inl (ReadError m)"
  shows "process_tar e p d w =
     (None, d,
      emit (LogError (''failed to uncompress tar '' @ p @ '': '' @ m))
        (emit (LogInfo (''extracting tar '' @ p @ '' -> '' @ extraction_dir ''tar'' p)) w))"
proof -
  obtain h t where ht: "os_path_split p = (h, t)" by (cases "os_path_split p")
  then have x: "extraction_dir ''tar'' p = os_path_join h (t @ ''-tar-uncompressed'')"
    by (simp add: extraction_dir_def)
  from assms show ?thesis unfolding x process_tar_def ht by (simp add: Let_def)
qed



text \<open>
  An exception of the tar extraction that is not a \<^verbatim>\<open>ReadError\<close> is not caught, and a
  fetch that raises leaves the local files as they were.
\<close>

lemma process_tar_raises:
  assumes "tar_extractall e p (extraction_dir ''tar'' p) = Inl err" and "\<forall>m. err \<noteq> ReadError m"
  shows "process_tar e p d w =
     (Some err, d,
      emit (LogInfo (''extracting tar '' @ p @ '' -> '' @ extraction_dir ''tar'' p)) w)"
proof -
  obtain h t where ht: "os_path_split p = (h, t)" by (cases "os_path_split p")
  then have x: "extraction_dir ''tar'' p = os_path_join h (t @ ''-tar-uncompressed'')"
    by (simp add: extraction_dir_def)
  from assms show ?thesis unfolding x process_tar_def ht
    by (cases err) (simp_all add: Let_def)
qed

lemma get_file_body_tar_step:
  assumes "fs_get e (remote_file_path d) (as_posix (tmp_download_file d)) = None"
    and "uncompress (config d)"
    and "\<not> is_zipfile e (as_posix (tmp_download_file d))"
    and "is_tarfile e (as_posix (tmp_download_file d))"
  shows "\<exists>w'. get_file_body e d w =
           process_tar e (as_posix (tmp_download_file d)) (d\<lparr>is_compressed := True\<rparr>) w'"
  using assms unfolding get_file_body_def by (simp add: Let_def) (rule exI, rule refl)


text \<open>
  A download that the bytes classify as a zip or tar archive leaves the document flagged
  as compressed, whether the archive is then expanded or not, and also when the
  expansion raises.
\<close>

lemma get_file_body_flags_archive:
  assumes "get_file_body e d w = (r, d', w')"
    and "fs_get e (remote_file_path d) (as_posix (tmp_download_file d)) = None"
    and "is_zipfile e (as_posix (tmp_download_file d)) \<or>
         is_tarfile e (as_posix (tmp_download_file d))"
  shows "is_compressed d'"
  using assms unfolding get_file_body_def Let_def
  by (auto simp: emit_def create_full_tmp_dir_path_def Let_def
      split: option.splits if_splits prod.splits
      dest!: process_zip_frame process_tar_frame)

text \<open>
  Claim C2. For a document flagged as an archive, \<^verbatim>\<open>process_file\<close> and
  \<^verbatim>\<open>write_result\<close> both return \<^verbatim>\<open>None\<close>; the result does not depend on the method
  of the base class, which is therefore not called; no local file is written and nothing
  is fetched, only a warning is logged. For a document that is not flagged, the call is
  exactly the call of the base class: only such documents reach the content processor.
  The flag is set by every fetch whose download is classified as a zip or tar archive,
  expanded or not, so both steps return \<^verbatim>\<open>None\<close> for the document such a fetch
  leaves.
\<close>

theorem archives_skip_processing:
  "(is_compressed d \<longrightarrow>
      fst (process_file base d w) = Inr None \<and> fst (write_result base d w) = Inr None \<and>
      process_file base d w = process_file base' d w \<and>
      write_result base d w = write_result base' d w \<and>
      snd (process_file base d w) =
        w\<lparr>logs := logs w @ [LogWarning (''file detected as zip, skipping process file: ''
                                         @ as_posix (filename d))]\<rparr> \<and>
      snd (write_result base d w) =
        w\<lparr>logs := logs w @ [LogWarning (''file detected as zip, skipping write results: ''
                                         @ as_posix (filename d))]\<rparr>) \<and>
   (\<not> is_compressed d \<longrightarrow>
      process_file base d w = base d w \<and> write_result base d w = base d w) \<and>
   (fs_get e (remote_file_path d) (as_posix (tmp_download_file d)) = None \<and>
    (is_zipfile e (as_posix (tmp_download_file d)) \<or>
     is_tarfile e (as_posix (tmp_download_file d))) \<longrightarrow>
      fst (process_file base (fst (snd (get_file_body e d w0))) w) = Inr None \<and>
      fst (write_result base (fst (snd (get_file_body e d w0))) w) = Inr None)"
proof (intro conjI)
  show "is_compressed d \<longrightarrow>
      fst (process_file base d w) = Inr None \<and> fst (write_result base d w) = Inr None \<and>
      process_file base d w = process_file base' d w \<and>
      write_result base d w = write_result base' d w \<and>
      snd (process_file base d w) =
        w\<lparr>logs := logs w @ [LogWarning (''file detected as zip, skipping process file: ''
                                         @ as_posix (filename d))]\<rparr> \<and>
      snd (write_result base d w) =
        w\<lparr>logs := logs w @ [LogWarning (''file detected as zip, skipping write results: ''
                                         @ as_posix (filename d))]\<rparr>"
    by (simp add: process_file_def write_result_def emit_def)
  show "\<not> is_compressed d \<longrightarrow>
      process_file base d w = base d w \<and> write_result base d w = base d w"
    by (simp add: process_file_def write_result_def)
  show "fs_get e (remote_file_path d) (as_posix (tmp_download_file d)) = None \<and>
    (is_zipfile e (as_posix (tmp_download_file d)) \<or>
     is_tarfile e (as_posix (tmp_download_file d))) \<longrightarrow>
      fst (process_file base (fst (snd (get_file_body e d w0))) w) = Inr None \<and>
      fst (write_result base (fst (snd (get_file_body e d w0))) w) = Inr None"
  proof
    assume h: "fs_get e (remote_file_path d) (as_posix (tmp_download_file d)) = None \<and>
      (is_zipfile e (as_posix (tmp_download_file d)) \<or>
       is_tarfile e (as_posix (tmp_download_file d)))"
    obtain r d1 w1 where b: "get_file_body e d w0 = (r, d1, w1)"
      by (cases "get_file_body e d w0")
    from h have "is_compressed d1"
      using get_file_body_flags_archive [OF b] by blast
    then show "fst (process_file base (fst (snd (get_file_body e d w0))) w) = Inr None \<and>
      fst (write_result base (fst (snd (get_file_body e d w0))) w) = Inr None"
      by (simp add: b process_file_def write_result_def)
  qed
qed

theorem archives_skip_processing_witness:
  "is_compressed (doc_at ''bucket/docs/b.zip''\<lparr>is_compressed := True\<rparr>) \<and>
   process_file (\<lambda>d w. (Inr (Some [''element'']), w\<lparr>files := insert ''out/b.zip.json'' (files w)\<rparr>))
     (doc_at ''bucket/docs/b.zip''\<lparr>is_compressed := True\<rparr>) empty_world =
     (Inr None,
      empty_world\<lparr>logs := [LogWarning ''file detected as zip, skipping process file: /tmp/dl/docs/b.zip'']\<rparr>) \<and>
   \<not> is_compressed (doc_at ''bucket/docs/a.txt'') \<and>
   process_file (\<lambda>d w. (Inr (Some [''element'']), w\<lparr>files := insert ''out/a.txt.json'' (files w)\<rparr>))
     (doc_at ''bucket/docs/a.txt'') empty_world =
     (Inr (Some [''element'']), empty_world\<lparr>files := {''out/a.txt.json''}\<rparr>) \<and>
   is_zipfile (stub_env []\<lparr>is_zipfile := \<lambda>p. True\<rparr>)
     (as_posix (tmp_download_file (doc_at ''bucket/docs/b.zip''))) \<and>
   fst (write_result (\<lambda>d w. (Inr (Some [''element'']), w\<lparr>files := insert ''out/b.zip.json'' (files w)\<rparr>))
     (fst (snd (get_file_body (stub_env []\<lparr>is_zipfile := \<lambda>p. True\<rparr>)
        (doc_at ''bucket/docs/b.zip'') empty_world))) empty_world) = Inr None"
proof -
  define base :: "string FsspecIngestDoc \<Rightarrow> world \<Rightarrow> (error + string list option) \<times> world"
    where "base = (\<lambda>d w. (Inr (Some [''element'']), w\<lparr>files := insert ''out/b.zip.json'' (files w)\<rparr>))"
  define base2 :: "string FsspecIngestDoc \<Rightarrow> world \<Rightarrow> (error + string list option) \<times> world"
    where "base2 = (\<lambda>d w. (Inr (Some [''element'']), w\<lparr>files := insert ''out/a.txt.json'' (files w)\<rparr>))"
  define ze where "ze = stub_env []\<lparr>is_zipfile := \<lambda>p. True\<rparr>"
  have h1: "is_compressed (doc_at ''bucket/docs/b.zip''\<lparr>is_compressed := True\<rparr>)" by simp
  have h2: "\<not> is_compressed (doc_at ''bucket/docs/a.txt'')" by (simp add: doc_at_def)
  have h3: "fs_get ze r l = None" "is_zipfile ze l" for r l
    by (simp_all add: ze_def stub_env_def)
  have n: "as_posix (filename (doc_at ''bucket/docs/b.zip''\<lparr>is_compressed := True\<rparr>)) =
             ''/tmp/dl/docs/b.zip''"
    by (simp add: filename_def tmp_download_file_def doc_at_def dirs_config_def s3_config_def
        truediv_def to_Path_def splitroot_def as_posix_def)
  have e: "logs empty_world = []" "files empty_world = {}" by (simp_all add: empty_world_def)
  from h1 h2 n e
    archives_skip_processing [where d = "doc_at ''bucket/docs/b.zip''\<lparr>is_compressed := True\<rparr>"
      and base = base and w = empty_world and base' = base]
    archives_skip_processing [where d = "doc_at ''bucket/docs/a.txt''" and base = base2
      and w = empty_world and base' = base2]
  have a: "process_file base (doc_at ''bucket/docs/b.zip''\<lparr>is_compressed := True\<rparr>) empty_world =
     (Inr None,
      empty_world\<lparr>logs := [LogWarning ''file detected as zip, skipping process file: /tmp/dl/docs/b.zip'']\<rparr>)"
    "process_file base2 (doc_at ''bucket/docs/a.txt'') empty_world =
     (Inr (Some [''element'']), empty_world\<lparr>files := {''out/a.txt.json''}\<rparr>)"
    unfolding base_def base2_def by (simp_all add: prod_eq_iff)
  from h3
    archives_skip_processing [where d = "doc_at ''bucket/docs/b.zip''" and base = base
      and w = empty_world and e = ze and ?w0.0 = empty_world]
  have b: "fst (write_result base (fst (snd (get_file_body ze (doc_at ''bucket/docs/b.zip'')
      empty_world))) empty_world) = Inr None"
    by simp
  from h1 h2 h3 a b show ?thesis unfolding base_def base2_def ze_def by simp
qed

text \<open>
  Claim C3, as the code has it. The handler of \<^verbatim>\<open>process_tar\<close> catches
  \<^verbatim>\<open>tarfile.ReadError\<close> and nothing else:
  \<^item> when opening or extracting the tar archive raises \<^verbatim>\<open>ReadError\<close>, \<^verbatim>\<open>process_tar\<close>
    logs the error and returns without an exception, the document unchanged, its
    children included; the same holds one level up, for the fetch that found the archive;
  \<^item> any other exception of the tar extraction comes out of \<^verbatim>\<open>process_tar\<close> and of
    the fetch that called it, with no error logged;
  \<^item> whatever exception the extraction of a zip archive raises comes out of
    \<^verbatim>\<open>process_zip\<close> and out of the fetch that called it; no error is logged for it and
    the children are unchanged.
\<close>

theorem archive_corruption_asymmetry:
  "(tar_extractall e p (extraction_dir ''tar'' p) = Inl (ReadError m) \<longrightarrow>
      process_tar e p d w =
        (None, d,
         emit (LogError (''failed to uncompress tar '' @ p @ '': '' @ m))
           (emit (LogInfo (''extracting tar '' @ p @ '' -> '' @ extraction_dir ''tar'' p)) w))) \<and>
   (tar_extractall e p (extraction_dir ''tar'' p) = Inl err \<and> (\<forall>m. err \<noteq> ReadError m) \<longrightarrow>
      process_tar e p d w =
        (Some err, d,
         emit (LogInfo (''extracting tar '' @ p @ '' -> '' @ extraction_dir ''tar'' p)) w)) \<and>
   (zip_extractall e p (extraction_dir ''zip'' p) = Inl err \<longrightarrow>
      process_zip e p d w =
        (Some err, d,
         emit (LogInfo (''extracting zip '' @ p @ '' -> '' @ extraction_dir ''zip'' p)) w)) \<and>
   (fs_get e (remote_file_path d) (as_posix (tmp_download_file d)) = None \<and>
    uncompress (config d) \<and>
    \<not> is_zipfile e (as_posix (tmp_download_file d)) \<and>
    is_tarfile e (as_posix (tmp_download_file d)) \<and>
    tar_extractall e (as_posix (tmp_download_file d))
      (extraction_dir ''tar'' (as_posix (tmp_download_file d))) = Inl (ReadError m) \<longrightarrow>
      fst (get_file_body e d w) = None \<and>
      fst (snd (get_file_body e d w)) = d\<lparr>is_compressed := True\<rparr>) \<and>
   (fs_get e (remote_file_path d) (as_posix (tmp_download_file d)) = None \<and>
    uncompress (config d) \<and>
    \<not> is_zipfile e (as_posix (tmp_download_file d)) \<and>
    is_tarfile e (as_posix (tmp_download_file d)) \<and>
    tar_extractall e (as_posix (tmp_download_file d))
      (extraction_dir ''tar'' (as_posix (tmp_download_file d))) = Inl err \<and>
    (\<forall>m. err \<noteq> ReadError m) \<longrightarrow>
      fst (get_file_body e d w) = Some err \<and>
      fst (snd (get_file_body e d w)) = d\<lparr>is_compressed := True\<rparr>) \<and>
   (fs_get e (remote_file_path d) (as_posix (tmp_download_file d)) = None \<and>
    uncompress (config d) \<and>
    is_zipfile e (as_posix (tmp_download_file d)) \<and>
    zip_extractall e (as_posix (tmp_download_file d))
      (extraction_dir ''zip'' (as_posix (tmp_download_file d))) = Inl err \<longrightarrow>
      fst (get_file_body e d w) = Some err \<and>
      fst (snd (get_file_body e d w)) = d\<lparr>is_compressed := True\<rparr>)"
  (is "?tar_read \<and> ?tar_other \<and> ?zip \<and> ?fetch_tar_read \<and> ?fetch_tar_other \<and> ?fetch_zip")
proof -
  define lp where "lp = as_posix (tmp_download_file d)"
  have ?tar_read
    by (simp add: process_tar_read_error)
  moreover have ?tar_other
    by (simp add: process_tar_raises)
  moreover have ?zip
    by (simp add: process_zip_raises)
  moreover have ?fetch_tar_read
  proof
    assume h: "fs_get e (remote_file_path d) (as_posix (tmp_download_file d)) = None \<and>
      uncompress (config d) \<and>
      \<not> is_zipfile e (as_posix (tmp_download_file d)) \<and>
      is_tarfile e (as_posix (tmp_download_file d)) \<and>
      tar_extractall e (as_posix (tmp_download_file d))
        (extraction_dir ''tar'' (as_posix (tmp_download_file d))) = Inl (ReadError m)"
    then obtain w' where
      "get_file_body e d w =
         process_tar e (as_posix (tmp_download_file d)) (d\<lparr>is_compressed := True\<rparr>) w'"
      using get_file_body_tar_step [of e d w] by blast
    with h show "fst (get_file_body e d w) = None \<and>
      fst (snd (get_file_body e d w)) = d\<lparr>is_compressed := True\<rparr>"
      by (simp add: process_tar_read_error)
  qed
  moreover have ?fetch_tar_other
  proof
    assume h: "fs_get e (remote_file_path d) (as_posix (tmp_download_file d)) = None \<and>
      uncompress (config d) \<and>
      \<not> is_zipfile e (as_posix (tmp_download_file d)) \<and>
      is_tarfile e (as_posix (tmp_download_file d)) \<and>
      tar_extractall e (as_posix (tmp_download_file d))
        (extraction_dir ''tar'' (as_posix (tmp_download_file d))) = Inl err \<and>
      (\<forall>m. err \<noteq> ReadError m)"
    then obtain w' where
      "get_file_body e d w =
         process_tar e (as_posix (tmp_download_file d)) (d\<lparr>is_compressed := True\<rparr>) w'"
      using get_file_body_tar_step [of e d w] by blast
    with h show "fst (get_file_body e d w) = Some err \<and>
      fst (snd (get_file_body e d w)) = d\<lparr>is_compressed := True\<rparr>"
      by (simp add: process_tar_raises)
  qed
  moreover have ?fetch_zip
  proof
    assume h: "fs_get e (remote_file_path d) (as_posix (tmp_download_file d)) = None \<and>
      uncompress (config d) \<and>
      is_zipfile e (as_posix (tmp_download_file d)) \<and>
      zip_extractall e (as_posix (tmp_download_file d))
        (extraction_dir ''zip'' (as_posix (tmp_download_file d))) = Inl err"
    then have z: "zip_extractall e lp (extraction_dir ''zip'' lp) = Inl err"
      unfolding lp_def by simp
    from h show "fst (get_file_body e d w) = Some err \<and>
      fst (snd (get_file_body e d w)) = d\<lparr>is_compressed := True\<rparr>"
      unfolding get_file_body_def lp_def [symmetric]
      by (simp add: Let_def process_zip_raises [OF z])
  qed
  ultimately show ?thesis by blast
qed

text \<open>
  The claim as stated has every malformed tar archive handled inside the expansion. A
  tar archive whose extraction raises something other than \<^verbatim>\<open>ReadError\<close> (a
  \<^verbatim>\<open>KeyError\<close> for a hard link to a member that is missing, say) is not: the
  exception comes out of \<^verbatim>\<open>process_tar\<close> and of the fetch.
\<close>

theorem archive_corruption_asymmetry_counterexample:
  "fst (process_tar
     (stub_env []\<lparr>is_tarfile := \<lambda>p. True, tar_extractall := \<lambda>z p. Inl (Raised ''KeyError'')\<rparr>)
     ''/tmp/dl/docs/b.tar'' (doc_at ''bucket/docs/b.tar'') empty_world) = Some (Raised ''KeyError'') \<and>
   fst (get_file_body
     (stub_env []\<lparr>is_tarfile := \<lambda>p. True, tar_extractall := \<lambda>z p. Inl (Raised ''KeyError'')\<rparr>)
     (doc_at ''bucket/docs/b.tar'') empty_world) = Some (Raised ''KeyError'')"
proof -
  define te where "te = stub_env []\<lparr>is_tarfile := \<lambda>p. True,
    tar_extractall := \<lambda>z p. Inl (Raised ''KeyError'')\<rparr>"
  have t1: "tar_extractall te p q = Inl (Raised ''KeyError'')" for p q
    by (simp add: te_def)
  have t2: "fs_get te r l = None" "\<not> is_zipfile te l" "is_tarfile te l" for r l
    by (simp_all add: te_def stub_env_def)
  have u: "uncompress (config (doc_at k))" for k
    by (simp add: doc_at_def s3_config_def)
  have no: "\<forall>m. Raised ''KeyError'' \<noteq> ReadError m" by simp
  have a: "fst (process_tar te ''/tmp/dl/docs/b.tar'' (doc_at ''bucket/docs/b.tar'') empty_world) =
      Some (Raised ''KeyError'')"
    by (simp add: process_tar_raises [OF t1 no])
  obtain w' where "get_file_body te (doc_at ''bucket/docs/b.tar'') empty_world =
      process_tar te (as_posix (tmp_download_file (doc_at ''bucket/docs/b.tar'')))
        (doc_at ''bucket/docs/b.tar''\<lparr>is_compressed := True\<rparr>) w'"
    using get_file_body_tar_step [OF t2(1) u t2(2) t2(3)] by blast
  then have b: "fst (get_file_body te (doc_at ''bucket/docs/b.tar'') empty_world) =
      Some (Raised ''KeyError'')"
    by (simp add: process_tar_raises [OF t1 no])
  from a b show ?thesis unfolding te_def by simp
qed

theorem archive_corruption_asymmetry_witness:
  "process_tar
     (stub_env []\<lparr>is_tarfile := \<lambda>p. True, tar_extractall := \<lambda>z p. Inl (ReadError ''bad header'')\<rparr>)
     ''/tmp/dl/docs/b.tar'' (doc_at ''bucket/docs/b.tar'') empty_world =
     (None, doc_at ''bucket/docs/b.tar'',
      empty_world\<lparr>logs :=
        [LogInfo ''extracting tar /tmp/dl/docs/b.tar -> /tmp/dl/docs/b.tar-tar-uncompressed'',
         LogError ''failed to uncompress tar /tmp/dl/docs/b.tar: bad header'']\<rparr>) \<and>
   fst (get_file_body
     (stub_env []\<lparr>is_tarfile := \<lambda>p. True, tar_extractall := \<lambda>z p. Inl (ReadError ''bad header'')\<rparr>)
     (doc_at ''bucket/docs/b.tar'') empty_world) = None \<and>
   children (fst (snd (get_file_body
     (stub_env []\<lparr>is_tarfile := \<lambda>p. True, tar_extractall := \<lambda>z p. Inl (ReadError ''bad header'')\<rparr>)
     (doc_at ''bucket/docs/b.tar'') empty_world))) = [] \<and>
   fst (process_tar
     (stub_env []\<lparr>is_tarfile := \<lambda>p. True, tar_extractall := \<lambda>z p. Inl (Raised ''KeyError'')\<rparr>)
     ''/tmp/dl/docs/b.tar'' (doc_at ''bucket/docs/b.tar'') empty_world) = Some (Raised ''KeyError'') \<and>
   fst (get_file_body
     (stub_env []\<lparr>is_tarfile := \<lambda>p. True, tar_extractall := \<lambda>z p. Inl (Raised ''KeyError'')\<rparr>)
     (doc_at ''bucket/docs/b.tar'') empty_world) = Some (Raised ''KeyError'') \<and>
   fst (process_zip
     (stub_env []\<lparr>is_zipfile := \<lambda>p. True, zip_extractall := \<lambda>z p. Inl (Raised ''BadZipFile'')\<rparr>)
     ''/tmp/dl/docs/b.zip'' (doc_at ''bucket/docs/b.zip'') empty_world) = Some (Raised ''BadZipFile'') \<and>
   fst (get_file_body
     (stub_env []\<lparr>is_zipfile := \<lambda>p. True, zip_extractall := \<lambda>z p. Inl (Raised ''BadZipFile'')\<rparr>)
     (doc_at ''bucket/docs/b.zip'') empty_world) = Some (Raised ''BadZipFile'')"
proof -
  define te where "te = stub_env []\<lparr>is_tarfile := \<lambda>p. True,
    tar_extractall := \<lambda>z p. Inl (ReadError ''bad header'')\<rparr>"
  define ke where "ke = stub_env []\<lparr>is_tarfile := \<lambda>p. True,
    tar_extractall := \<lambda>z p. Inl (Raised ''KeyError'')\<rparr>"
  define ze where "ze = stub_env []\<lparr>is_zipfile := \<lambda>p. True,
    zip_extractall := \<lambda>z p. Inl (Raised ''BadZipFile'')\<rparr>"
  have x: "extraction_dir ''tar'' ''/tmp/dl/docs/b.tar'' = ''/tmp/dl/docs/b.tar-tar-uncompressed''"
    by (simp add: extraction_dir_def os_path_split_def os_path_join_def)
  have t1: "tar_extractall te p q = Inl (ReadError ''bad header'')" for p q
    by (simp add: te_def)
  have t2: "fs_get te r l = None" "\<not> is_zipfile te l" "is_tarfile te l" for r l
    by (simp_all add: te_def stub_env_def)
  have z1: "zip_extractall ze p q = Inl (Raised ''BadZipFile'')" for p q
    by (simp add: ze_def)
  have z2: "fs_get ze r l = None" "is_zipfile ze l" for r l
    by (simp_all add: ze_def stub_env_def)
  have u: "uncompress (config (doc_at k))" "children (doc_at k) = []" for k
    by (simp_all add: doc_at_def s3_config_def)
  have w: "logs empty_world = []" by (simp add: empty_world_def)
  from x t1 t2 u w
    archive_corruption_asymmetry [where e = te and p = "''/tmp/dl/docs/b.tar''"
      and m = "''bad header''" and d = "doc_at ''bucket/docs/b.tar''" and w = empty_world]
  have tar: "process_tar te ''/tmp/dl/docs/b.tar'' (doc_at ''bucket/docs/b.tar'') empty_world =
     (None, doc_at ''bucket/docs/b.tar'',
      empty_world\<lparr>logs :=
        [LogInfo ''extracting tar /tmp/dl/docs/b.tar -> /tmp/dl/docs/b.tar-tar-uncompressed'',
         LogError ''failed to uncompress tar /tmp/dl/docs/b.tar: bad header'']\<rparr>)"
    "fst (get_file_body te (doc_at ''bucket/docs/b.tar'') empty_world) = None"
    "children (fst (snd (get_file_body te (doc_at ''bucket/docs/b.tar'') empty_world))) = []"
    by (simp_all add: emit_def)
  from z1 z2 u
    archive_corruption_asymmetry [where e = ze and p = "''/tmp/dl/docs/b.zip''"
      and err = "Raised ''BadZipFile''" and d = "doc_at ''bucket/docs/b.zip''"
      and w = empty_world]
  have zip: "fst (process_zip ze ''/tmp/dl/docs/b.zip'' (doc_at ''bucket/docs/b.zip'')
        empty_world) = Some (Raised ''BadZipFile'')"
    "fst (get_file_body ze (doc_at ''bucket/docs/b.zip'') empty_world) = Some (Raised ''BadZipFile'')"
    by simp_all
  have k1: "tar_extractall ke p q = Inl (Raised ''KeyError'')" for p q
    by (simp add: ke_def)
  have k2: "fs_get ke r l = None" "\<not> is_zipfile ke l" "is_tarfile ke l" for r l
    by (simp_all add: ke_def stub_env_def)
  have k3: "\<forall>m. Raised ''KeyError'' \<noteq> ReadError m" by simp
  from k1 k2 k3 u
    archive_corruption_asymmetry [where e = ke and p = "''/tmp/dl/docs/b.tar''"
      and err = "Raised ''KeyError''" and d = "doc_at ''bucket/docs/b.tar''"
      and w = empty_world]
  have other: "fst (process_tar ke ''/tmp/dl/docs/b.tar'' (doc_at ''bucket/docs/b.tar'')
        empty_world) = Some (Raised ''KeyError'')"
    "fst (get_file_body ke (doc_at ''bucket/docs/b.tar'') empty_world) = Some (Raised ''KeyError'')"
    by simp_all
  from tar other zip show ?thesis unfolding te_def ke_def ze_def by simp
qed




text \<open>
  Claim C9 at a remote key in which the root directory's name comes back further down:
  \<^verbatim>\<open>str.replace\<close> removes every occurrence of \<^verbatim>\<open>bucket/\<close>, not only the leading one.
  The cache path and the output path lose the inner directory, and two different keys
  get the same cache path.
\<close>

theorem cache_path_inner_occurrence:
  "as_posix (tmp_download_file (doc_at ''bucket/a/bucket/b.txt'')) = ''/tmp/dl/a/b.txt'' \<and>
   as_posix (output_filename (doc_at ''bucket/a/bucket/b.txt'')) = ''out/a/b.txt.json'' \<and>
   tmp_download_file (doc_at ''bucket/a/bucket/b.txt'') = tmp_download_file (doc_at ''bucket/a/b.txt'')"
  by (simp add: tmp_download_file_def output_filename_def doc_at_def dirs_config_def
      s3_config_def truediv_def to_Path_def splitroot_def as_posix_def)

end
